theory Spec2Isabelle
  imports Main
begin

section \<open>Python values and exceptions\<close>

text \<open>
  The exceptions (subclasses of Python's \<open>Exception\<close>) that the modelled code raises,
  catches or lets through. \<open>LibvirtError\<close> is \<open>libvirt.libvirtError\<close>, the error the
  hypervisor bindings raise; \<open>KeyError\<close> is raised by a failed dictionary subscript
  and \<open>IndexError\<close> by a list subscript out of range; \<open>TypeError\<close> by iterating over
  \<open>None\<close> and by giving an element attributes that are not a dictionary;
  \<open>AttributeError\<close> by reading an attribute that \<open>None\<close> does not have;
  \<open>OtherError\<close> is any other exception.
\<close>

datatype exc =
    LibvirtError string
  | KeyError string
  | IndexError
  | TypeError
  | AttributeError
  | OtherError string

text \<open>A value that is either a Python bool or \<open>None\<close>, with its truth value.\<close>

datatype pyval = PyBool bool | PyNone

fun truthy :: "pyval \<Rightarrow> bool" where
  "truthy (PyBool b) = b"
| "truthy PyNone = False"

text \<open>
  \<open>not x\<close> for a value that is \<open>None\<close> or a string: true for \<open>None\<close> and for the
  empty string.
\<close>

fun py_not :: "string option \<Rightarrow> bool" where
  "py_not None = True"
| "py_not (Some s) = (s = [])"


section \<open>The document model\<close>

text \<open>
  The classes are bound to the document by \<open>XMLProperty\<close> and \<open>XMLChildProperty\<close>.
  A property bound to the element's own text (\<open>"."\<close>) is a string; a property bound
  to an attribute or to a child element is \<open>None\<close> when the document lacks it; a
  yes/no attribute is \<open>True\<close>, \<open>False\<close> or \<open>None\<close>; a repeated child is the list
  of the children in document order.
\<close>

record Value =
  value_text :: string

record Enum =
  enum_name :: "string option"
  enum_values :: "Value list"

record CapsBlock =
  supported :: "bool option"
  block_values :: "Value list"
  enums :: "Enum list"

record OS = CapsBlock +
  loader :: CapsBlock

record Devices = CapsBlock +
  hostdev :: CapsBlock
  disk :: CapsBlock

record Features = CapsBlock +
  gic :: CapsBlock

record CPUModel =
  model :: string
  usable :: "string option"
  fallback :: "string option"

record CPUFeature =
  feature_name :: "string option"
  policy :: "string option"

record CPUMode =
  mode_name :: "string option"
  mode_supported :: "bool option"
  vendor :: "string option"
  models :: "CPUModel list"
  mode_features :: "CPUFeature list"

record CPU =
  modes :: "CPUMode list"

record DomainCapabilities =
  os :: OS
  cpu :: CPU
  devices :: Devices
  features :: Features
  arch :: "string option"
  domain :: "string option"
  machine :: "string option"
  path :: "string option"

text \<open>The expanded CPU description returned by the hypervisor, as \<open>DomainCpu\<close> reads it.\<close>

record DomainCpu =
  cpu_features :: "CPUFeature list"

definition empty_block :: CapsBlock where
  "empty_block = \<lparr>supported = None, block_values = [], enums = []\<rparr>"

definition stub_DomainCapabilities :: DomainCapabilities where
  \<comment> \<open>Modelled from the spec: the constructor of \<open>XMLBuilder\<close> (xmlbuilder.py), called
      as \<open>DomainCapabilities(conn)\<close> without a document, gives the empty stub, all
      fields absent.\<close>
  "stub_DomainCapabilities =
     \<lparr>os = \<lparr>supported = None, block_values = [], enums = [], loader = empty_block\<rparr>,
      cpu = \<lparr>modes = []\<rparr>,
      devices = \<lparr>supported = None, block_values = [], enums = [],
                 hostdev = empty_block, disk = empty_block\<rparr>,
      features = \<lparr>supported = None, block_values = [], enums = [], gic = empty_block\<rparr>,
      arch = None, domain = None, machine = None, path = None\<rparr>"


section \<open>Enum and value handling\<close>

definition get_values :: "Value list \<Rightarrow> string list" where
  "get_values vs = map value_text vs"

definition enum_names :: "('a CapsBlock_scheme) \<Rightarrow> string option list" where
  "enum_names b = map enum_name (enums b)"

text \<open>\<open>dict(pairs)\<close>: the pairs are stored in order, a later key replacing an earlier one.\<close>

fun dict_of :: "('k \<times> 'v) list \<Rightarrow> ('k \<rightharpoonup> 'v) \<Rightarrow> ('k \<rightharpoonup> 'v)" where
  "dict_of [] d = d"
| "dict_of ((k, v) # kvs) d = dict_of kvs (d(k \<mapsto> v))"

definition get_enum :: "('a CapsBlock_scheme) \<Rightarrow> string \<Rightarrow> exc + Enum" where
  "get_enum b name =
     (let d = dict_of (map (\<lambda>e. (enum_name e, e)) (enums b)) Map.empty
      in case d (Some name) of
           None \<Rightarrow> Inl (KeyError name)
         | Some e \<Rightarrow> Inr e)"


section \<open>Regular expressions\<close>

text \<open>
  The patterns of the UEFI table use literal characters (\<open>\.\<close> is a literal dot) and
  \<open>.*\<close> only. \<open>re.match\<close> anchors the pattern at the start of the string and not at
  its end, and \<open>.\<close> matches every character but a newline.
\<close>

datatype re_item = Lit char | DotStar

definition lit :: "string \<Rightarrow> re_item list" where
  "lit s = map Lit s"

fun re_match :: "re_item list \<Rightarrow> string \<Rightarrow> bool" where
  "re_match [] s = True"
| "re_match (Lit c # ps) [] = False"
| "re_match (Lit c # ps) (x # xs) = (c = x \<and> re_match ps xs)"
| "re_match (DotStar # ps) [] = re_match ps []"
| "re_match (DotStar # ps) (x # xs) =
     (re_match ps (x # xs) \<or> (x \<noteq> CHR 0x0A \<and> re_match (DotStar # ps) xs))"


section \<open>UEFI firmware paths\<close>

text \<open>The dictionary \<open>_uefi_arch_patterns\<close>, its items in the order they are written.\<close>

definition uefi_arch_patterns :: "(string \<times> re_item list list) list" where
  "uefi_arch_patterns =
     [(''i686'',
        [DotStar # lit ''ovmf-ia32'' @ [DotStar]]),
      (''x86_64'',
        [DotStar # lit ''OVMF_CODE.fd'',
         DotStar # lit ''ovmf-x64/OVMF'' @ DotStar # lit ''.fd'',
         DotStar # lit ''ovmf-x86_64-'' @ [DotStar],
         DotStar # lit ''ovmf'' @ [DotStar],
         DotStar # lit ''OVMF'' @ [DotStar]]),
      (''aarch64'',
        [DotStar # lit ''AAVMF_CODE.fd'',
         DotStar # lit ''aarch64/QEMU_EFI'' @ [DotStar],
         DotStar # lit ''aarch64'' @ [DotStar]]),
      (''armv7l'',
        [DotStar # lit ''arm/QEMU_EFI'' @ [DotStar]])]"

definition arch_can_uefi :: "DomainCapabilities \<Rightarrow> bool" where
  "arch_can_uefi self =
     (case arch self of
        None \<Rightarrow> False
      | Some a \<Rightarrow> a \<in> set (map fst uefi_arch_patterns))"

text \<open>\<open>dict.get(key)\<close> on the pattern table; the key may be \<open>None\<close>.\<close>

definition patterns_get :: "string option \<Rightarrow> re_item list list option" where
  "patterns_get k = (case k of None \<Rightarrow> None | Some a \<Rightarrow> map_of uefi_arch_patterns a)"

text \<open>The inner loop of \<open>find_uefi_path_for_arch\<close>, over the loader's values.\<close>

fun find_path :: "re_item list \<Rightarrow> string list \<Rightarrow> string option" where
  "find_path pattern [] = None"
| "find_path pattern (p # rest) =
     (if re_match pattern p then Some p else find_path pattern rest)"

text \<open>The outer loop, over the patterns of the arch.\<close>

fun find_pattern :: "re_item list list \<Rightarrow> string list \<Rightarrow> string option" where
  "find_pattern [] vs = None"
| "find_pattern (pattern # rest) vs =
     (case find_path pattern vs of
        Some p \<Rightarrow> Some p
      | None \<Rightarrow> find_pattern rest vs)"

definition find_uefi_path_for_arch :: "DomainCapabilities \<Rightarrow> exc + string option" where
  "find_uefi_path_for_arch self =
     (if \<not> arch_can_uefi self then Inr None
      else case patterns_get (arch self) of
             None \<Rightarrow> Inl TypeError
           | Some patterns \<Rightarrow>
               Inr (find_pattern patterns (map value_text (block_values (loader (os self))))))"

text \<open>The loops of \<open>label_for_firmware_path\<close>: the patterns of one arch, then the items.\<close>

fun label_patterns :: "string \<Rightarrow> re_item list list \<Rightarrow> string \<Rightarrow> string option" where
  "label_patterns a [] p = None"
| "label_patterns a (pattern # rest) p =
     (if re_match pattern p then Some (''UEFI '' @ a @ '': '' @ p)
      else label_patterns a rest p)"

fun label_items :: "(string \<times> re_item list list) list \<Rightarrow> string \<Rightarrow> string option" where
  "label_items [] p = None"
| "label_items ((a, patterns) # rest) p =
     (case label_patterns a patterns p of
        Some l \<Rightarrow> Some l
      | None \<Rightarrow> label_items rest p)"

definition label_for_firmware_path :: "DomainCapabilities \<Rightarrow> string option \<Rightarrow> string" where
  "label_for_firmware_path self p =
     (if py_not p then
        (if arch self \<in> set [Some ''i686'', Some ''x86_64''] then ''BIOS'' else ''None'')
      else case p of
             None \<Rightarrow> ''None''
           | Some s \<Rightarrow>
               (case label_items uefi_arch_patterns s of
                  Some l \<Rightarrow> l
                | None \<Rightarrow> ''Custom: '' @ s))"

definition supports_uefi_xml :: "DomainCapabilities \<Rightarrow> exc + bool" where
  "supports_uefi_xml self =
     (if Some ''readonly'' \<in> set (enum_names (loader (os self))) then
        (case get_enum (loader (os self)) ''readonly'' of
           Inl e \<Rightarrow> Inl e
         | Inr e \<Rightarrow> Inr (''yes'' \<in> set (get_values (enum_values e))))
      else Inr False)"


section \<open>CPU queries\<close>

text \<open>
  One element of the list that \<open>supports_safe_host_model\<close> builds: \<open>and\<close> gives its
  first false operand, and \<open>models[0]\<close> raises on an empty list.
\<close>

definition safe_host_model_of :: "CPUMode \<Rightarrow> exc + pyval" where
  "safe_host_model_of m =
     (if mode_name m \<noteq> Some ''host-model'' then Inr (PyBool False)
      else case mode_supported m of
             None \<Rightarrow> Inr PyNone
           | Some False \<Rightarrow> Inr (PyBool False)
           | Some True \<Rightarrow>
               (case models m of
                  [] \<Rightarrow> Inl IndexError
                | m0 # _ \<Rightarrow> Inr (PyBool (fallback m0 = Some ''forbid''))))"

text \<open>A list comprehension whose element expression may raise.\<close>

fun comprehension :: "('a \<Rightarrow> exc + 'b) \<Rightarrow> 'a list \<Rightarrow> exc + 'b list" where
  "comprehension f [] = Inr []"
| "comprehension f (x # xs) =
     (case f x of
        Inl e \<Rightarrow> Inl e
      | Inr v \<Rightarrow>
          (case comprehension f xs of
             Inl e \<Rightarrow> Inl e
           | Inr vs \<Rightarrow> Inr (v # vs)))"

definition supports_safe_host_model :: "DomainCapabilities \<Rightarrow> exc + pyval list" where
  "supports_safe_host_model self = comprehension safe_host_model_of (modes (cpu self))"

text \<open>The loops of \<open>get_cpu_models\<close>, the list \<open>models\<close> passed along.\<close>

fun append_usable :: "CPUModel list \<Rightarrow> string list \<Rightarrow> string list" where
  "append_usable [] acc = acc"
| "append_usable (m # rest) acc =
     append_usable rest (if usable m \<noteq> Some ''no'' then acc @ [model m] else acc)"

fun cpu_models_loop :: "CPUMode list \<Rightarrow> string list \<Rightarrow> string list" where
  "cpu_models_loop [] acc = acc"
| "cpu_models_loop (m # rest) acc =
     cpu_models_loop rest
       (if mode_name m = Some ''custom'' \<and> mode_supported m = Some True
        then append_usable (models m) acc else acc)"

definition get_cpu_models :: "DomainCapabilities \<Rightarrow> string list" where
  "get_cpu_models self = cpu_models_loop (modes (cpu self)) []"


section \<open>The hypervisor connection\<close>

text \<open>
  The connection object is an external collaborator. Its answers are taken as functions
  of the request; the calls that the code issues are recorded, in order, as a list of
  \<open>call\<close>s returned beside the result.
\<close>

record conn =
  SUPPORT_CONN_DOMAIN_CAPABILITIES :: nat
  check_support :: "nat \<Rightarrow> bool"
  getDomainCapabilities ::
    "string option \<Rightarrow> string option \<Rightarrow> string option \<Rightarrow> string option
       \<Rightarrow> exc + string option"
  baselineHypervisorCPU ::
    "string option \<Rightarrow> string option \<Rightarrow> string option \<Rightarrow> string option
       \<Rightarrow> string list \<Rightarrow> nat \<Rightarrow> exc + string"
  baselineCPU :: "string list \<Rightarrow> nat \<Rightarrow> exc + string"

datatype call =
    CallBaselineHypervisorCPU "string option" "string option" "string option"
      "string option" "string list" nat
  | CallBaselineCPU "string list" nat

definition VIR_CONNECT_BASELINE_CPU_EXPAND_FEATURES :: nat where
  \<comment> \<open>the flag of the libvirt bindings\<close>
  "VIR_CONNECT_BASELINE_CPU_EXPAND_FEATURES = 1"

text \<open>An element of \<open>xml.etree.ElementTree\<close>: tag, attributes, text and children.\<close>

datatype etree =
  Element (tag: string) (attrib: "(string \<times> string) list option")
    (el_text: "string option") (children: "etree list")

text \<open>
  The document binding and the XML library, which the module imports: serialising a
  mode (\<open>get_xml\<close>), \<open>ET.fromstring\<close> on that text, the serialiser behind
  \<open>ET.tostring\<close>, and the two constructors that parse a document,
  \<open>DomainCpu(conn, xml)\<close> and \<open>DomainCapabilities(conn, parsexml=xml)\<close>.
  \<open>c_elementtree\<close> tells which implementation of \<open>xml.etree.ElementTree\<close> is
  loaded: the C accelerator (the default) or the Python one.
\<close>

record env =
  get_xml :: "CPUMode \<Rightarrow> string"
  fromstring :: "string \<Rightarrow> etree"
  tostring :: "etree \<Rightarrow> string"
  c_elementtree :: bool
  new_DomainCpu :: "string \<Rightarrow> DomainCpu"
  parsexml :: "string \<Rightarrow> exc + DomainCapabilities"


section \<open>Construction\<close>

definition build_from_params ::
  "env \<Rightarrow> conn \<Rightarrow> string option \<Rightarrow> string option \<Rightarrow> string option \<Rightarrow> string option
     \<Rightarrow> exc + DomainCapabilities" where
  "build_from_params E c emulator a m hvtype =
     (let xml =
        (if check_support c (SUPPORT_CONN_DOMAIN_CAPABILITIES c) then
           (case getDomainCapabilities c emulator a m hvtype of
              Inl e \<Rightarrow> None
            | Inr x \<Rightarrow> x)
         else None)
      in if py_not xml then Inr stub_DomainCapabilities
         else case xml of
                None \<Rightarrow> Inr stub_DomainCapabilities
              | Some x \<Rightarrow> parsexml E x)"


section \<open>CPU security features\<close>

text \<open>
  Assigning to \<open>Element.attrib\<close>. The C implementation accepts a dictionary only and
  raises \<open>TypeError\<close> for \<open>None\<close>; the Python implementation stores any value.
\<close>

definition et_set_attrib ::
  "env \<Rightarrow> etree \<Rightarrow> (string \<times> string) list option \<Rightarrow> exc + etree" where
  "et_set_attrib E root v =
     (if c_elementtree E \<and> v = None then Inl TypeError
      else Inr (Element (tag root) v (el_text root) (children root)))"

text \<open>
  \<open>ET.tostring\<close>. Serialising starts with the items of the attributes of the root,
  and reading the items of \<open>None\<close> raises \<open>AttributeError\<close>.
\<close>

definition et_tostring :: "env \<Rightarrow> etree \<Rightarrow> exc + string" where
  "et_tostring E root =
     (case attrib root of
        None \<Rightarrow> Inl AttributeError
      | Some items \<Rightarrow> Inr (tostring E root))"

text \<open>
  \<open>_convert_mode_to_cpu\<close>: the root is retagged, its attributes are set to \<open>None\<close>,
  a new last child \<open>arch\<close> gets the arch of the instance as its text, and the root is
  serialised.
\<close>

definition convert_mode_to_cpu :: "env \<Rightarrow> DomainCapabilities \<Rightarrow> string \<Rightarrow> exc + string" where
  "convert_mode_to_cpu E self xml =
     (let root = fromstring E xml;
          root = Element ''cpu'' (attrib root) (el_text root) (children root)
      in case et_set_attrib E root None of
           Inl e \<Rightarrow> Inl e
         | Inr root \<Rightarrow>
             (let arch_el = Element ''arch'' (Some []) (arch self) [];
                  root = Element (tag root) (attrib root) (el_text root)
                           (children root @ [arch_el])
              in et_tostring E root))"

text \<open>
  \<open>_get_expanded_cpu\<close>: the descriptor is built before the \<open>try\<close> statement, so an
  error of that step leaves the function before any call to the connection.
\<close>

definition get_expanded_cpu ::
  "env \<Rightarrow> conn \<Rightarrow> DomainCapabilities \<Rightarrow> CPUMode \<Rightarrow> (exc + DomainCpu) \<times> call list" where
  "get_expanded_cpu E c self mode =
     (case convert_mode_to_cpu E self (get_xml E mode) of
        Inl e \<Rightarrow> (Inl e, [])
      | Inr cpuXML \<Rightarrow>
          (let flags = VIR_CONNECT_BASELINE_CPU_EXPAND_FEATURES;
               call1 = CallBaselineHypervisorCPU (path self) (arch self) (machine self)
                         (domain self) [cpuXML] flags
           in case baselineHypervisorCPU c (path self) (arch self) (machine self)
                     (domain self) [cpuXML] flags of
                Inr expandedXML \<Rightarrow> (Inr (new_DomainCpu E expandedXML), [call1])
              | Inl (LibvirtError msg) \<Rightarrow>
                  (case baselineCPU c [cpuXML] flags of
                     Inr expandedXML \<Rightarrow>
                       (Inr (new_DomainCpu E expandedXML),
                        [call1, CallBaselineCPU [cpuXML] flags])
                   | Inl e \<Rightarrow> (Inl e, [call1, CallBaselineCPU [cpuXML] flags]))
              | Inl e \<Rightarrow> (Inl e, [call1])))"

definition sec_features :: "string list" where
  "sec_features = [''spec-ctrl'', ''ssbd'', ''ibpb'', ''virt-ssbd'']"

text \<open>The inner loop of \<open>get_cpu_security_features\<close>, over the expanded features.\<close>

fun append_sec :: "CPUFeature list \<Rightarrow> string list \<Rightarrow> string list" where
  "append_sec [] acc = acc"
| "append_sec (f # rest) acc =
     append_sec rest
       (case feature_name f of
          None \<Rightarrow> acc
        | Some n \<Rightarrow> if n \<in> set sec_features then acc @ [n] else acc)"

text \<open>
  The loop over the modes: \<open>continue\<close> goes on with the rest, \<open>break\<close> leaves with the
  features so far, any other exception leaves the function.
\<close>

fun security_loop ::
  "env \<Rightarrow> conn \<Rightarrow> DomainCapabilities \<Rightarrow> CPUMode list \<Rightarrow> string list \<Rightarrow> call list
     \<Rightarrow> (exc + string list) \<times> call list" where
  "security_loop E c self [] acc log = (Inr acc, log)"
| "security_loop E c self (m # rest) acc log =
     (if mode_name m \<noteq> Some ''host-model'' \<or> mode_supported m \<noteq> Some True
      then security_loop E c self rest acc log
      else case get_expanded_cpu E c self m of
             (Inl (LibvirtError msg), calls) \<Rightarrow> (Inr acc, log @ calls)
           | (Inl e, calls) \<Rightarrow> (Inl e, log @ calls)
           | (Inr x, calls) \<Rightarrow>
               security_loop E c self rest (append_sec (cpu_features x) acc) (log @ calls))"

definition get_cpu_security_features ::
  "env \<Rightarrow> conn \<Rightarrow> DomainCapabilities \<Rightarrow> (exc + string list) \<times> call list" where
  "get_cpu_security_features E c self = security_loop E c self (modes (cpu self)) [] []"


section \<open>Notions used to state the properties\<close>

text \<open>A mode named "host-model" whose supported flag is true.\<close>

definition supported_host_model :: "CPUMode \<Rightarrow> bool" where
  "supported_host_model m =
     (mode_name m = Some ''host-model'' \<and> mode_supported m = Some True)"

text \<open>The error that building the descriptor of a mode raises.\<close>

definition descriptor_error :: "env \<Rightarrow> exc" where
  "descriptor_error E = (if c_elementtree E then TypeError else AttributeError)"

text \<open>The condition that \<open>supports_safe_host_model\<close> evaluates for a mode.\<close>

definition safe_host_model_cond :: "CPUMode \<Rightarrow> bool" where
  "safe_host_model_cond m =
     (mode_name m = Some ''host-model'' \<and> mode_supported m = Some True
      \<and> fallback (hd (models m)) = Some ''forbid'')"

text \<open>A value is the first one, in document order, that the pattern matches.\<close>

definition first_matching :: "re_item list \<Rightarrow> string list \<Rightarrow> string \<Rightarrow> bool" where
  "first_matching pattern vs v =
     (\<exists>k < length vs. vs ! k = v \<and> re_match pattern v
        \<and> (\<forall>l < k. \<not> re_match pattern (vs ! l)))"

text \<open>Some pattern of the list matches the string.\<close>

definition any_match :: "re_item list list \<Rightarrow> string \<Rightarrow> bool" where
  "any_match patterns s = (\<exists>pattern \<in> set patterns. re_match pattern s)"


section \<open>Example collaborators\<close>

text \<open>
  A small document binding used to run the functions on concrete inputs: a mode is
  serialised to its vendor, the parsed element keeps that text, an element is written as
  its tag in angle brackets followed by its text, and the expanded description is read
  as a list of feature names separated by spaces.
\<close>

fun split_words :: "string \<Rightarrow> string \<Rightarrow> string list" where
  "split_words [] w = (if w = [] then [] else [w])"
| "split_words (x # xs) w =
     (if x = CHR '' '' then (if w = [] then split_words xs [] else w # split_words xs [])
      else split_words xs (w @ [x]))"

definition example_env :: env where
  "example_env =
     \<lparr>get_xml = (\<lambda>m. case vendor m of None \<Rightarrow> [] | Some v \<Rightarrow> v),
      fromstring = (\<lambda>s. Element ''mode'' (Some [(''name'', ''host-model'')]) (Some s) []),
      tostring = (\<lambda>t. ''<'' @ tag t @ ''>'' @ (case el_text t of None \<Rightarrow> [] | Some s \<Rightarrow> s)),
      c_elementtree = True,
      new_DomainCpu = (\<lambda>s. \<lparr>cpu_features =
         map (\<lambda>n. \<lparr>feature_name = Some n, policy = Some ''require''\<rparr>) (split_words s [])\<rparr>),
      parsexml = (\<lambda>s. Inr (stub_DomainCapabilities\<lparr>arch := Some s\<rparr>))\<rparr>"

text \<open>The same binding with the Python implementation of the XML library.\<close>

definition python_env :: env where
  "python_env = example_env\<lparr>c_elementtree := False\<rparr>"

text \<open>A connection without support for capability queries; every call raises.\<close>

definition unsupported_conn :: conn where
  "unsupported_conn =
     \<lparr>SUPPORT_CONN_DOMAIN_CAPABILITIES = 7,
      check_support = (\<lambda>f. False),
      getDomainCapabilities = (\<lambda>e a m h. Inl (LibvirtError ''unsupported'')),
      baselineHypervisorCPU = (\<lambda>p a m d xs f. Inl (LibvirtError ''unsupported'')),
      baselineCPU = (\<lambda>xs f. Inl (LibvirtError ''unsupported''))\<rparr>"

text \<open>
  A connection with support whose document fetch raises, whose newer baseline call
  raises a hypervisor error, and whose older baseline call answers for an Intel
  descriptor only.
\<close>

definition old_conn :: conn where
  "old_conn =
     \<lparr>SUPPORT_CONN_DOMAIN_CAPABILITIES = 7,
      check_support = (\<lambda>f. f = 7),
      getDomainCapabilities = (\<lambda>e a m h. Inl (OtherError ''connection reset'')),
      baselineHypervisorCPU = (\<lambda>p a m d xs f. Inl (LibvirtError ''not supported'')),
      baselineCPU = (\<lambda>xs f. if xs = [''<cpu>Intel''] \<and> f = 1
                          then Inr ''vmx spec-ctrl sse2 ssbd''
                          else Inl (LibvirtError ''bad cpu''))\<rparr>"

text \<open>
  A connection with support whose document fetch returns an empty document and whose
  newer baseline call answers.
\<close>

definition new_conn :: conn where
  "new_conn =
     \<lparr>SUPPORT_CONN_DOMAIN_CAPABILITIES = 7,
      check_support = (\<lambda>f. f = 7),
      getDomainCapabilities = (\<lambda>e a m h. Inr (Some [])),
      baselineHypervisorCPU = (\<lambda>p a m d xs f. Inr ''ibpb avx virt-ssbd''),
      baselineCPU = (\<lambda>xs f. Inl (LibvirtError ''never asked''))\<rparr>"

definition host_mode :: "string \<Rightarrow> CPUMode" where
  "host_mode v =
     \<lparr>mode_name = Some ''host-model'', mode_supported = Some True, vendor = Some v,
      models = [], mode_features = []\<rparr>"


text \<open>An instance with the given arch and the given values in its OS loader block.\<close>

definition with_loader_values :: "string option \<Rightarrow> string list \<Rightarrow> DomainCapabilities" where
  "with_loader_values a vs =
     stub_DomainCapabilities
       \<lparr>os := \<lparr>supported = Some True, block_values = [], enums = [],
                loader = \<lparr>supported = Some True,
                           block_values = map (\<lambda>v. \<lparr>value_text = v\<rparr>) vs,
                           enums = []\<rparr>\<rparr>,
        arch := a\<rparr>"


section \<open>Looking up an enum by name\<close>

lemma dict_of_lookup:
  "dict_of (map (\<lambda>e. (f e, e)) es) d k =
     (case filter (\<lambda>e. f e = k) es of [] \<Rightarrow> d k | x # xs \<Rightarrow> Some (last (x # xs)))"
proof (induction es arbitrary: d)
  case Nil
  then show ?case by simp
next
  case (Cons e es)
  show ?case
    by (cases "filter (\<lambda>e. f e = k) es") (auto simp: Cons.IH)
qed

text \<open>
  Claim C7. For every capability block \<open>b\<close> and name \<open>n\<close>: when some enum of \<open>b\<close> is
  named \<open>n\<close>, \<open>get_enum\<close> returns an enum of \<open>b\<close> named \<open>n\<close> (the last one in document
  order, which is the only one when the names are unique); when no enum of \<open>b\<close> is
  named \<open>n\<close>, it fails with the lookup error \<open>KeyError n\<close> and returns nothing.
\<close>

theorem get_enum_lookup:
  "((\<exists>e \<in> set (enums b). enum_name e = Some n) \<longrightarrow>
      (\<exists>e. get_enum b n = Inr e \<and> e \<in> set (enums b) \<and> enum_name e = Some n
          \<and> e = last (filter (\<lambda>e. enum_name e = Some n) (enums b))))
   \<and> ((\<forall>e \<in> set (enums b). enum_name e \<noteq> Some n) \<longrightarrow> get_enum b n = Inl (KeyError n))"
proof (cases "filter (\<lambda>e. enum_name e = Some n) (enums b)")
  case Nil
  then have none: "\<forall>e \<in> set (enums b). enum_name e \<noteq> Some n"
    by (simp add: filter_empty_conv)
  from Nil have "get_enum b n = Inl (KeyError n)"
    by (simp add: get_enum_def dict_of_lookup)
  with none show ?thesis by blast
next
  case (Cons x xs)
  let ?F = "filter (\<lambda>e. enum_name e = Some n) (enums b)"
  from Cons have ne: "?F \<noteq> []" by simp
  then have "last ?F \<in> set ?F" by (rule last_in_set)
  then have mem: "last ?F \<in> set (enums b)" and nm: "enum_name (last ?F) = Some n"
    by simp_all
  from Cons have "get_enum b n = Inr (last ?F)"
    by (simp add: get_enum_def dict_of_lookup)
  with mem nm show ?thesis by blast
qed

theorem get_enum_lookup_witness:
  "get_enum \<lparr>supported = Some True, block_values = [],
     enums = [\<lparr>enum_name = Some ''type'', enum_values = [\<lparr>value_text = ''rom''\<rparr>]\<rparr>,
              \<lparr>enum_name = Some ''readonly'', enum_values = [\<lparr>value_text = ''yes''\<rparr>]\<rparr>]\<rparr>
     ''readonly'' = Inr \<lparr>enum_name = Some ''readonly'', enum_values = [\<lparr>value_text = ''yes''\<rparr>]\<rparr>
   \<and> get_enum \<lparr>supported = Some True, block_values = [],
     enums = [\<lparr>enum_name = Some ''type'', enum_values = [\<lparr>value_text = ''rom''\<rparr>]\<rparr>,
              \<lparr>enum_name = Some ''readonly'', enum_values = [\<lparr>value_text = ''yes''\<rparr>]\<rparr>]\<rparr>
     ''secure'' = Inl (KeyError ''secure'')"
  using get_enum_lookup [of "\<lparr>supported = Some True, block_values = [],
     enums = [\<lparr>enum_name = Some ''type'', enum_values = [\<lparr>value_text = ''rom''\<rparr>]\<rparr>,
              \<lparr>enum_name = Some ''readonly'', enum_values = [\<lparr>value_text = ''yes''\<rparr>]\<rparr>]\<rparr>" "''readonly''"]
    get_enum_lookup [of "\<lparr>supported = Some True, block_values = [],
     enums = [\<lparr>enum_name = Some ''type'', enum_values = [\<lparr>value_text = ''rom''\<rparr>]\<rparr>,
              \<lparr>enum_name = Some ''readonly'', enum_values = [\<lparr>value_text = ''yes''\<rparr>]\<rparr>]\<rparr>" "''secure''"]
  by simp


section \<open>Custom CPU models\<close>

lemma append_usable_filter:
  "append_usable ms acc = acc @ map model (filter (\<lambda>x. usable x \<noteq> Some ''no'') ms)"
  by (induction ms arbitrary: acc) simp_all

lemma cpu_models_loop_concat:
  "cpu_models_loop ms acc =
     acc @ concat (map (\<lambda>m. map model (filter (\<lambda>x. usable x \<noteq> Some ''no'') (models m)))
             (filter (\<lambda>m. mode_name m = Some ''custom'' \<and> mode_supported m = Some True) ms))"
  by (induction ms arbitrary: acc) (simp_all add: append_usable_filter)

text \<open>
  Claim C5. For every CPU tree, \<open>get_cpu_models\<close> returns the concatenation, over the
  modes named "custom" whose supported flag is true, in document order, of the names
  of their models whose usable attribute is not "no", in the document order of each
  mode; a model whose usable attribute is "yes" or unset is therefore listed. One
  supported custom mode with the models A (usable "yes"), B (usable "no") and
  C (usable unset) yields A, C.
\<close>

theorem get_cpu_models_concat:
  "get_cpu_models self =
     concat (map (\<lambda>m. map model (filter (\<lambda>x. usable x \<noteq> Some ''no'') (models m)))
       (filter (\<lambda>m. mode_name m = Some ''custom'' \<and> mode_supported m = Some True)
          (modes (cpu self))))
   \<and> (\<forall>m \<in> set (modes (cpu self)). \<forall>x \<in> set (models m).
         mode_name m = Some ''custom'' \<and> mode_supported m = Some True
         \<and> (usable x = Some ''yes'' \<or> usable x = None)
         \<longrightarrow> model x \<in> set (get_cpu_models self))
   \<and> get_cpu_models (stub_DomainCapabilities\<lparr>cpu := \<lparr>modes =
         [\<lparr>mode_name = Some ''custom'', mode_supported = Some True, vendor = None,
           models = [\<lparr>model = ''A'', usable = Some ''yes'', fallback = None\<rparr>,
                     \<lparr>model = ''B'', usable = Some ''no'', fallback = None\<rparr>,
                     \<lparr>model = ''C'', usable = None, fallback = None\<rparr>],
           mode_features = []\<rparr>]\<rparr>\<rparr>) = [''A'', ''C'']"
proof -
  have eq: "\<And>d. get_cpu_models d =
     concat (map (\<lambda>m. map model (filter (\<lambda>x. usable x \<noteq> Some ''no'') (models m)))
       (filter (\<lambda>m. mode_name m = Some ''custom'' \<and> mode_supported m = Some True)
          (modes (cpu d))))"
    by (simp add: get_cpu_models_def cpu_models_loop_concat)
  have mem: "\<forall>m \<in> set (modes (cpu self)). \<forall>x \<in> set (models m).
         mode_name m = Some ''custom'' \<and> mode_supported m = Some True
         \<and> (usable x = Some ''yes'' \<or> usable x = None)
         \<longrightarrow> model x \<in> set (get_cpu_models self)"
    unfolding eq by auto
  have ex: "get_cpu_models (stub_DomainCapabilities\<lparr>cpu := \<lparr>modes =
         [\<lparr>mode_name = Some ''custom'', mode_supported = Some True, vendor = None,
           models = [\<lparr>model = ''A'', usable = Some ''yes'', fallback = None\<rparr>,
                     \<lparr>model = ''B'', usable = Some ''no'', fallback = None\<rparr>,
                     \<lparr>model = ''C'', usable = None, fallback = None\<rparr>],
           mode_features = []\<rparr>]\<rparr>\<rparr>) = [''A'', ''C'']"
    by (simp add: get_cpu_models_def)
  from eq [of self] mem ex show ?thesis by blast
qed

theorem get_cpu_models_concat_witness:
  "get_cpu_models (stub_DomainCapabilities\<lparr>cpu := \<lparr>modes =
      [\<lparr>mode_name = Some ''host-model'', mode_supported = Some True, vendor = None,
        models = [\<lparr>model = ''Skylake'', usable = None, fallback = Some ''forbid''\<rparr>],
        mode_features = []\<rparr>,
       \<lparr>mode_name = Some ''custom'', mode_supported = Some True, vendor = None,
        models = [\<lparr>model = ''qemu64'', usable = Some ''yes'', fallback = None\<rparr>,
                  \<lparr>model = ''Icelake'', usable = Some ''no'', fallback = None\<rparr>],
        mode_features = []\<rparr>,
       \<lparr>mode_name = Some ''custom'', mode_supported = Some False, vendor = None,
        models = [\<lparr>model = ''486'', usable = Some ''yes'', fallback = None\<rparr>],
        mode_features = []\<rparr>]\<rparr>\<rparr>) = [''qemu64'']"
  using get_cpu_models_concat [of "stub_DomainCapabilities\<lparr>cpu := \<lparr>modes =
      [\<lparr>mode_name = Some ''host-model'', mode_supported = Some True, vendor = None,
        models = [\<lparr>model = ''Skylake'', usable = None, fallback = Some ''forbid''\<rparr>],
        mode_features = []\<rparr>,
       \<lparr>mode_name = Some ''custom'', mode_supported = Some True, vendor = None,
        models = [\<lparr>model = ''qemu64'', usable = Some ''yes'', fallback = None\<rparr>,
                  \<lparr>model = ''Icelake'', usable = Some ''no'', fallback = None\<rparr>],
        mode_features = []\<rparr>,
       \<lparr>mode_name = Some ''custom'', mode_supported = Some False, vendor = None,
        models = [\<lparr>model = ''486'', usable = Some ''yes'', fallback = None\<rparr>],
        mode_features = []\<rparr>]\<rparr>\<rparr>"]
  by simp


section \<open>Safe host-model\<close>

lemma comprehension_Inr:
  "\<forall>x \<in> set xs. f x = Inr (g x) \<Longrightarrow> comprehension f xs = Inr (map g xs)"
  by (induction xs) simp_all

lemma comprehension_Inl_elem:
  "comprehension f xs = Inl e \<Longrightarrow> \<exists>x \<in> set xs. f x = Inl e"
  by (induction xs) (auto split: sum.splits)

lemma comprehension_Inr_all:
  "comprehension f xs = Inr vs \<Longrightarrow> x \<in> set xs \<Longrightarrow> \<exists>v. f x = Inr v"
  by (induction xs arbitrary: vs) (auto split: sum.splits)

lemma safe_host_model_of_Inl:
  "(safe_host_model_of m = Inl e) =
     (e = IndexError \<and> mode_name m = Some ''host-model'' \<and> mode_supported m = Some True
      \<and> models m = [])"
  by (auto simp: safe_host_model_of_def split: option.splits bool.splits list.splits)

lemma safe_host_model_of_Inr:
  "\<not> (mode_name m = Some ''host-model'' \<and> mode_supported m = Some True \<and> models m = [])
     \<Longrightarrow> \<exists>v. safe_host_model_of m = Inr v \<and> truthy v = safe_host_model_cond m"
  by (auto simp: safe_host_model_of_def safe_host_model_cond_def
      split: option.splits bool.splits list.splits)

text \<open>
  Claim C4. Assuming every supported host-model mode has at least one model,
  \<open>supports_safe_host_model\<close> returns a list with one entry for every mode of the CPU
  tree, in order, and the entry of a mode is true iff the name of the mode is
  "host-model", its supported flag is true and the fallback attribute of its first
  model is "forbid": the result is the whole list, not one aggregate boolean.
\<close>

theorem supports_safe_host_model_per_mode:
  assumes "\<forall>m \<in> set (modes (cpu self)).
             mode_name m = Some ''host-model'' \<and> mode_supported m = Some True
             \<longrightarrow> models m \<noteq> []"
  shows "\<exists>bs. supports_safe_host_model self = Inr bs
           \<and> length bs = length (modes (cpu self))
           \<and> map truthy bs = map safe_host_model_cond (modes (cpu self))
           \<and> (\<forall>i < length bs. (bs ! i = PyBool True) =
                (mode_name (modes (cpu self) ! i) = Some ''host-model''
                 \<and> mode_supported (modes (cpu self) ! i) = Some True
                 \<and> fallback (hd (models (modes (cpu self) ! i))) = Some ''forbid''))"
proof -
  let ?ms = "modes (cpu self)"
  let ?g = "\<lambda>m. projr (safe_host_model_of m)"
  have each1: "\<forall>m \<in> set ?ms. safe_host_model_of m = Inr (?g m)"
    and each2: "\<forall>m \<in> set ?ms. truthy (?g m) = safe_host_model_cond m"
  proof -
    have "safe_host_model_of m = Inr (?g m) \<and> truthy (?g m) = safe_host_model_cond m"
      if "m \<in> set ?ms" for m
    proof -
      from that assms have "\<not> (mode_name m = Some ''host-model''
        \<and> mode_supported m = Some True \<and> models m = [])" by blast
      from safe_host_model_of_Inr [OF this] obtain v
        where v: "safe_host_model_of m = Inr v" and t: "truthy v = safe_host_model_cond m"
        by blast
      from v have "?g m = v" by simp
      with v t show ?thesis by simp
    qed
    then show "\<forall>m \<in> set ?ms. safe_host_model_of m = Inr (?g m)"
      and "\<forall>m \<in> set ?ms. truthy (?g m) = safe_host_model_cond m"
      by blast+
  qed
  have res: "supports_safe_host_model self = Inr (map ?g ?ms)"
    unfolding supports_safe_host_model_def using each1 by (rule comprehension_Inr)
  have tr: "map truthy (map ?g ?ms) = map safe_host_model_cond ?ms"
    using each2 by simp
  have ix: "\<forall>i < length (map ?g ?ms). (map ?g ?ms ! i = PyBool True) =
                (mode_name (?ms ! i) = Some ''host-model''
                 \<and> mode_supported (?ms ! i) = Some True
                 \<and> fallback (hd (models (?ms ! i))) = Some ''forbid'')"
  proof (intro allI impI)
    fix i assume "i < length (map ?g ?ms)"
    then have i: "i < length ?ms" by simp
    then have "?ms ! i \<in> set ?ms" by simp
    with each2 have t: "truthy (?g (?ms ! i)) = safe_host_model_cond (?ms ! i)" by blast
    have "(?g (?ms ! i) = PyBool True) = truthy (?g (?ms ! i))"
      by (cases "?g (?ms ! i)") simp_all
    with t i show "(map ?g ?ms ! i = PyBool True) =
                (mode_name (?ms ! i) = Some ''host-model''
                 \<and> mode_supported (?ms ! i) = Some True
                 \<and> fallback (hd (models (?ms ! i))) = Some ''forbid'')"
      by (simp add: safe_host_model_cond_def)
  qed
  show ?thesis
  proof (intro exI conjI)
    show "supports_safe_host_model self = Inr (map ?g ?ms)" by (rule res)
    show "length (map ?g ?ms) = length ?ms" by simp
    show "map truthy (map ?g ?ms) = map safe_host_model_cond ?ms" by (rule tr)
    show "\<forall>i < length (map ?g ?ms). (map ?g ?ms ! i = PyBool True) =
                (mode_name (?ms ! i) = Some ''host-model''
                 \<and> mode_supported (?ms ! i) = Some True
                 \<and> fallback (hd (models (?ms ! i))) = Some ''forbid'')" by (rule ix)
  qed
qed

theorem supports_safe_host_model_per_mode_witness:
  "supports_safe_host_model (stub_DomainCapabilities\<lparr>cpu := \<lparr>modes =
      [\<lparr>mode_name = Some ''custom'', mode_supported = Some True, vendor = None,
        models = [], mode_features = []\<rparr>,
       \<lparr>mode_name = Some ''host-model'', mode_supported = Some True, vendor = None,
        models = [\<lparr>model = ''Skylake'', usable = None, fallback = Some ''forbid''\<rparr>],
        mode_features = []\<rparr>,
       \<lparr>mode_name = Some ''host-passthrough'', mode_supported = Some True, vendor = None,
        models = [], mode_features = []\<rparr>]\<rparr>\<rparr>)
   = Inr [PyBool False, PyBool True, PyBool False]"
  using supports_safe_host_model_per_mode [of "stub_DomainCapabilities\<lparr>cpu := \<lparr>modes =
      [\<lparr>mode_name = Some ''custom'', mode_supported = Some True, vendor = None,
        models = [], mode_features = []\<rparr>,
       \<lparr>mode_name = Some ''host-model'', mode_supported = Some True, vendor = None,
        models = [\<lparr>model = ''Skylake'', usable = None, fallback = Some ''forbid''\<rparr>],
        mode_features = []\<rparr>,
       \<lparr>mode_name = Some ''host-passthrough'', mode_supported = Some True, vendor = None,
        models = [], mode_features = []\<rparr>]\<rparr>\<rparr>"]
  by (simp add: supports_safe_host_model_def safe_host_model_of_def)

text \<open>
  Claim C9. If the CPU tree has a mode named "host-model" whose supported flag is true
  and whose list of models is empty, \<open>supports_safe_host_model\<close> fails with an
  out-of-range index error and returns no list. For every other mode the entry is
  computed without an error, also when the mode has no model, so the call returns a
  list exactly when every supported host-model mode has at least one model.
\<close>

theorem supports_safe_host_model_index_error:
  "((\<exists>m \<in> set (modes (cpu self)).
        mode_name m = Some ''host-model'' \<and> mode_supported m = Some True \<and> models m = [])
      \<longrightarrow> supports_safe_host_model self = Inl IndexError)
   \<and> (\<forall>m. \<not> (mode_name m = Some ''host-model'' \<and> mode_supported m = Some True)
         \<longrightarrow> (\<exists>v. safe_host_model_of m = Inr v))
   \<and> ((\<forall>m \<in> set (modes (cpu self)).
        mode_name m = Some ''host-model'' \<and> mode_supported m = Some True \<longrightarrow> models m \<noteq> [])
      \<longrightarrow> (\<exists>bs. supports_safe_host_model self = Inr bs))"
proof (intro conjI impI allI)
  assume "\<exists>m \<in> set (modes (cpu self)).
        mode_name m = Some ''host-model'' \<and> mode_supported m = Some True \<and> models m = []"
  then obtain m where m: "m \<in> set (modes (cpu self))"
    and bad: "mode_name m = Some ''host-model'' \<and> mode_supported m = Some True \<and> models m = []"
    by blast
  from bad have fm: "safe_host_model_of m = Inl IndexError"
    by (simp add: safe_host_model_of_Inl)
  show "supports_safe_host_model self = Inl IndexError"
  proof (cases "supports_safe_host_model self")
    case (Inl e)
    then have "comprehension safe_host_model_of (modes (cpu self)) = Inl e"
      by (simp add: supports_safe_host_model_def)
    from comprehension_Inl_elem [OF this] obtain x where "safe_host_model_of x = Inl e"
      by blast
    then have "e = IndexError" by (simp add: safe_host_model_of_Inl)
    with Inl show ?thesis by simp
  next
    case (Inr vs)
    then have "comprehension safe_host_model_of (modes (cpu self)) = Inr vs"
      by (simp add: supports_safe_host_model_def)
    from comprehension_Inr_all [OF this m] fm show ?thesis by simp
  qed
next
  fix m :: CPUMode
  assume "\<not> (mode_name m = Some ''host-model'' \<and> mode_supported m = Some True)"
  then have "\<not> (mode_name m = Some ''host-model'' \<and> mode_supported m = Some True \<and> models m = [])"
    by blast
  from safe_host_model_of_Inr [OF this] show "\<exists>v. safe_host_model_of m = Inr v" by blast
next
  assume a: "\<forall>m \<in> set (modes (cpu self)).
        mode_name m = Some ''host-model'' \<and> mode_supported m = Some True \<longrightarrow> models m \<noteq> []"
  have "\<forall>m \<in> set (modes (cpu self)). safe_host_model_of m = Inr (projr (safe_host_model_of m))"
  proof
    fix m assume "m \<in> set (modes (cpu self))"
    with a have "\<not> (mode_name m = Some ''host-model'' \<and> mode_supported m = Some True
        \<and> models m = [])" by blast
    from safe_host_model_of_Inr [OF this] obtain v where v: "safe_host_model_of m = Inr v"
      by blast
    then have "projr (safe_host_model_of m) = v" by simp
    with v show "safe_host_model_of m = Inr (projr (safe_host_model_of m))" by simp
  qed
  then have "supports_safe_host_model self = Inr (map (\<lambda>m. projr (safe_host_model_of m)) (modes (cpu self)))"
    unfolding supports_safe_host_model_def by (rule comprehension_Inr)
  then show "\<exists>bs. supports_safe_host_model self = Inr bs" by blast
qed

theorem supports_safe_host_model_index_error_witness:
  "supports_safe_host_model (stub_DomainCapabilities\<lparr>cpu := \<lparr>modes =
      [\<lparr>mode_name = Some ''custom'', mode_supported = Some True, vendor = None,
        models = [], mode_features = []\<rparr>,
       \<lparr>mode_name = Some ''host-model'', mode_supported = Some True, vendor = None,
        models = [], mode_features = []\<rparr>]\<rparr>\<rparr>) = Inl IndexError"
  using supports_safe_host_model_index_error [of "stub_DomainCapabilities\<lparr>cpu := \<lparr>modes =
      [\<lparr>mode_name = Some ''custom'', mode_supported = Some True, vendor = None,
        models = [], mode_features = []\<rparr>,
       \<lparr>mode_name = Some ''host-model'', mode_supported = Some True, vendor = None,
        models = [], mode_features = []\<rparr>]\<rparr>\<rparr>"]
  by simp


section \<open>Construction from a connection\<close>

lemma build_unsupported:
  "\<not> check_support c (SUPPORT_CONN_DOMAIN_CAPABILITIES c)
     \<Longrightarrow> build_from_params E c emulator a m hvtype = Inr stub_DomainCapabilities"
  by (simp add: build_from_params_def)

lemma build_fetch_error:
  "getDomainCapabilities c emulator a m hvtype = Inl e
     \<Longrightarrow> build_from_params E c emulator a m hvtype = Inr stub_DomainCapabilities"
  by (simp add: build_from_params_def)

lemma build_falsy:
  "getDomainCapabilities c emulator a m hvtype = Inr x \<Longrightarrow> py_not x
     \<Longrightarrow> build_from_params E c emulator a m hvtype = Inr stub_DomainCapabilities"
  by (cases x) (simp_all add: build_from_params_def)

lemma stub_fields:
  "supported (os stub_DomainCapabilities) = None"
  "enums (os stub_DomainCapabilities) = []"
  "block_values (os stub_DomainCapabilities) = []"
  "loader (os stub_DomainCapabilities) = empty_block"
  "modes (cpu stub_DomainCapabilities) = []"
  "supported (devices stub_DomainCapabilities) = None"
  "enums (devices stub_DomainCapabilities) = []"
  "hostdev (devices stub_DomainCapabilities) = empty_block"
  "disk (devices stub_DomainCapabilities) = empty_block"
  "supported (features stub_DomainCapabilities) = None"
  "enums (features stub_DomainCapabilities) = []"
  "gic (features stub_DomainCapabilities) = empty_block"
  "arch stub_DomainCapabilities = None"
  "domain stub_DomainCapabilities = None"
  "machine stub_DomainCapabilities = None"
  "path stub_DomainCapabilities = None"
  by (simp_all add: stub_DomainCapabilities_def)

text \<open>
  Claim C1. Whenever the connection does not support capability queries, or the fetch of
  the document raises an error, \<open>build_from_params\<close> returns the stub instance and
  raises nothing; in the stub every block is unsupported with no enum and no value,
  the CPU tree has no mode, and arch, domain, machine and path are absent.
\<close>

theorem build_from_params_stub:
  assumes "\<not> check_support c (SUPPORT_CONN_DOMAIN_CAPABILITIES c)
           \<or> (\<exists>e. getDomainCapabilities c emulator a m hvtype = Inl e)"
  shows "\<exists>d. build_from_params E c emulator a m hvtype = Inr d
           \<and> d = stub_DomainCapabilities
           \<and> supported (os d) = None \<and> enums (os d) = [] \<and> block_values (os d) = []
           \<and> loader (os d) = \<lparr>supported = None, block_values = [], enums = []\<rparr>
           \<and> modes (cpu d) = []
           \<and> supported (devices d) = None \<and> enums (devices d) = []
           \<and> hostdev (devices d) = \<lparr>supported = None, block_values = [], enums = []\<rparr>
           \<and> disk (devices d) = \<lparr>supported = None, block_values = [], enums = []\<rparr>
           \<and> supported (features d) = None \<and> enums (features d) = []
           \<and> gic (features d) = \<lparr>supported = None, block_values = [], enums = []\<rparr>
           \<and> arch d = None \<and> domain d = None \<and> machine d = None \<and> path d = None"
proof -
  from assms have "build_from_params E c emulator a m hvtype = Inr stub_DomainCapabilities"
    by (auto simp: build_unsupported build_fetch_error)
  then show ?thesis by (simp add: stub_fields empty_block_def)
qed

theorem build_from_params_stub_witness:
  "build_from_params example_env unsupported_conn (Some ''/usr/bin/qemu-kvm'')
     (Some ''x86_64'') (Some ''pc'') (Some ''kvm'') = Inr stub_DomainCapabilities
   \<and> build_from_params example_env old_conn (Some ''/usr/bin/qemu-kvm'')
     (Some ''x86_64'') (Some ''pc'') (Some ''kvm'') = Inr stub_DomainCapabilities"
  using build_from_params_stub [of unsupported_conn "Some ''/usr/bin/qemu-kvm''"
      "Some ''x86_64''" "Some ''pc''" "Some ''kvm''" example_env]
    build_from_params_stub [of old_conn "Some ''/usr/bin/qemu-kvm''"
      "Some ''x86_64''" "Some ''pc''" "Some ''kvm''" example_env]
  by (simp add: unsupported_conn_def old_conn_def)

text \<open>
  Claim C10. If the connection supports capability queries and the fetch succeeds with
  an empty document (\<open>None\<close> or the empty string), \<open>build_from_params\<close> returns the
  same stub as for a connection without support and as for a fetch that raises, so the
  three cases cannot be told apart from the result.
\<close>

theorem build_from_params_empty_document:
  assumes "check_support c (SUPPORT_CONN_DOMAIN_CAPABILITIES c)"
    and "getDomainCapabilities c emulator a m hvtype = Inr x"
    and "x = None \<or> x = Some []"
  shows "build_from_params E c emulator a m hvtype = Inr stub_DomainCapabilities
         \<and> (\<forall>c'. \<not> check_support c' (SUPPORT_CONN_DOMAIN_CAPABILITIES c')
               \<longrightarrow> build_from_params E c' emulator a m hvtype
                     = build_from_params E c emulator a m hvtype)
         \<and> (\<forall>c' e. check_support c' (SUPPORT_CONN_DOMAIN_CAPABILITIES c')
                    \<and> getDomainCapabilities c' emulator a m hvtype = Inl e
               \<longrightarrow> build_from_params E c' emulator a m hvtype
                     = build_from_params E c emulator a m hvtype)"
proof -
  from assms(3) have "py_not x" by auto
  with assms(2) have "build_from_params E c emulator a m hvtype = Inr stub_DomainCapabilities"
    by (rule build_falsy)
  then show ?thesis by (simp add: build_unsupported build_fetch_error)
qed

theorem build_from_params_empty_document_witness:
  "build_from_params example_env new_conn (Some ''/usr/bin/qemu-kvm'')
     (Some ''x86_64'') (Some ''pc'') (Some ''kvm'') = Inr stub_DomainCapabilities
   \<and> build_from_params example_env unsupported_conn (Some ''/usr/bin/qemu-kvm'')
       (Some ''x86_64'') (Some ''pc'') (Some ''kvm'')
     = build_from_params example_env new_conn (Some ''/usr/bin/qemu-kvm'')
       (Some ''x86_64'') (Some ''pc'') (Some ''kvm'')
   \<and> build_from_params example_env old_conn (Some ''/usr/bin/qemu-kvm'')
       (Some ''x86_64'') (Some ''pc'') (Some ''kvm'')
     = build_from_params example_env new_conn (Some ''/usr/bin/qemu-kvm'')
       (Some ''x86_64'') (Some ''pc'') (Some ''kvm'')"
proof -
  have s: "check_support new_conn (SUPPORT_CONN_DOMAIN_CAPABILITIES new_conn)"
    by (simp add: new_conn_def)
  have f: "getDomainCapabilities new_conn (Some ''/usr/bin/qemu-kvm'')
     (Some ''x86_64'') (Some ''pc'') (Some ''kvm'') = Inr (Some [])"
    by (simp add: new_conn_def)
  have u: "\<not> check_support unsupported_conn (SUPPORT_CONN_DOMAIN_CAPABILITIES unsupported_conn)"
    by (simp add: unsupported_conn_def)
  have o: "check_support old_conn (SUPPORT_CONN_DOMAIN_CAPABILITIES old_conn)
     \<and> getDomainCapabilities old_conn (Some ''/usr/bin/qemu-kvm'')
     (Some ''x86_64'') (Some ''pc'') (Some ''kvm'') = Inl (OtherError ''connection reset'')"
    by (simp add: old_conn_def)
  from build_from_params_empty_document [OF s f, of example_env] u o
  show ?thesis by blast
qed


section \<open>Expanding a CPU mode\<close>

lemma convert_mode_to_cpu_raises:
  "convert_mode_to_cpu E self xml = Inl (descriptor_error E)"
  by (simp add: convert_mode_to_cpu_def et_set_attrib_def et_tostring_def
      descriptor_error_def Let_def)

lemma get_expanded_cpu_raises:
  "get_expanded_cpu E c self mode = (Inl (descriptor_error E), [])"
  by (simp add: get_expanded_cpu_def convert_mode_to_cpu_raises)

text \<open>
  Claim C8 does not hold of the code. The descriptor is built before the \<open>try\<close>
  statement, and building it raises: \<open>root.attrib = None\<close> raises \<open>TypeError\<close> with
  the C implementation of the XML library, and with the Python implementation the
  serialisation of the root raises \<open>AttributeError\<close>. So for every connection, instance
  and mode the expansion raises that error, which is not a hypervisor error, and issues
  neither \<open>baselineHypervisorCPU\<close> nor \<open>baselineCPU\<close>, also when the newer call would
  have succeeded.
\<close>

theorem get_expanded_cpu_no_call:
  "get_expanded_cpu E c self mode =
     (Inl (if c_elementtree E then TypeError else AttributeError), [])
   \<and> (\<forall>p a m d xs f.
         CallBaselineHypervisorCPU p a m d xs f \<notin> set (snd (get_expanded_cpu E c self mode)))
   \<and> (\<forall>xs f. CallBaselineCPU xs f \<notin> set (snd (get_expanded_cpu E c self mode)))"
proof -
  have r: "get_expanded_cpu E c self mode = (Inl (descriptor_error E), [])"
    by (rule get_expanded_cpu_raises)
  then have calls: "snd (get_expanded_cpu E c self mode) = []" by simp
  from r have "get_expanded_cpu E c self mode =
      (Inl (if c_elementtree E then TypeError else AttributeError), [])"
    by (simp add: descriptor_error_def)
  with calls show ?thesis by simp
qed

theorem get_expanded_cpu_no_call_witness:
  "baselineHypervisorCPU new_conn (Some ''/usr/bin/qemu-kvm'') (Some ''x86_64'') None None
      [''<cpu>Intel''] 1 = Inr ''ibpb avx virt-ssbd''
   \<and> get_expanded_cpu example_env new_conn
      (stub_DomainCapabilities\<lparr>arch := Some ''x86_64'', path := Some ''/usr/bin/qemu-kvm''\<rparr>)
      (host_mode ''Intel'') = (Inl TypeError, [])
   \<and> get_expanded_cpu python_env old_conn
      (stub_DomainCapabilities\<lparr>arch := Some ''x86_64'', path := Some ''/usr/bin/qemu-kvm''\<rparr>)
      (host_mode ''Intel'') = (Inl AttributeError, [])"
  using get_expanded_cpu_no_call [of example_env new_conn
      "stub_DomainCapabilities\<lparr>arch := Some ''x86_64'', path := Some ''/usr/bin/qemu-kvm''\<rparr>"
      "host_mode ''Intel''"]
    get_expanded_cpu_no_call [of python_env old_conn
      "stub_DomainCapabilities\<lparr>arch := Some ''x86_64'', path := Some ''/usr/bin/qemu-kvm''\<rparr>"
      "host_mode ''Intel''"]
  by (simp add: example_env_def python_env_def new_conn_def)


section \<open>CPU security features\<close>

lemma security_loop_skip:
  "\<not> supported_host_model m
     \<Longrightarrow> security_loop E c self (m # rest) acc log = security_loop E c self rest acc log"
  by (auto simp: supported_host_model_def)

lemma security_loop_raises:
  "supported_host_model m
     \<Longrightarrow> security_loop E c self (m # rest) acc log = (Inl (descriptor_error E), log)"
  by (simp add: supported_host_model_def get_expanded_cpu_raises descriptor_error_def)

lemma security_loop_eval:
  "security_loop E c self ms acc log =
     (if \<exists>m \<in> set ms. supported_host_model m then (Inl (descriptor_error E), log)
      else (Inr acc, log))"
proof (induction ms)
  case Nil
  show ?case by simp
next
  case (Cons m ms)
  show ?case
  proof (cases "supported_host_model m")
    case True
    then show ?thesis by (simp add: security_loop_raises del: security_loop.simps)
  next
    case False
    then show ?thesis
      by (simp add: security_loop_skip Cons.IH del: security_loop.simps)
  qed
qed

text \<open>
  Claim C3 does not hold of the code. \<open>get_cpu_security_features\<close> skips the modes
  that are not named "host-model" or are not supported, and returns the empty list when
  it skips them all. At the first mode it does not skip, building the descriptor raises
  (\<open>TypeError\<close> with the C implementation of the XML library, \<open>AttributeError\<close> with
  the Python one); the handler of the loop catches hypervisor errors only, so the error
  leaves the function, no feature name is returned and the hypervisor is never called.
\<close>

theorem get_cpu_security_features_raises:
  "get_cpu_security_features E c self =
     (if \<exists>m \<in> set (modes (cpu self)).
           mode_name m = Some ''host-model'' \<and> mode_supported m = Some True
      then (Inl (if c_elementtree E then TypeError else AttributeError), [])
      else (Inr [], []))"
  by (simp add: get_cpu_security_features_def security_loop_eval supported_host_model_def
      descriptor_error_def)

theorem get_cpu_security_features_raises_witness:
  "get_cpu_security_features example_env new_conn
     (stub_DomainCapabilities\<lparr>cpu := \<lparr>modes =
        [\<lparr>mode_name = Some ''custom'', mode_supported = Some True, vendor = None,
          models = [], mode_features = []\<rparr>,
         host_mode ''Intel'']\<rparr>\<rparr>) = (Inl TypeError, [])
   \<and> get_cpu_security_features example_env new_conn
     (stub_DomainCapabilities\<lparr>cpu := \<lparr>modes =
        [\<lparr>mode_name = Some ''custom'', mode_supported = Some True, vendor = None,
          models = [], mode_features = []\<rparr>,
         \<lparr>mode_name = Some ''host-model'', mode_supported = Some False, vendor = None,
          models = [], mode_features = []\<rparr>]\<rparr>\<rparr>) = (Inr [], [])"
  using get_cpu_security_features_raises [of example_env new_conn
     "stub_DomainCapabilities\<lparr>cpu := \<lparr>modes =
        [\<lparr>mode_name = Some ''custom'', mode_supported = Some True, vendor = None,
          models = [], mode_features = []\<rparr>,
         host_mode ''Intel'']\<rparr>\<rparr>"]
    get_cpu_security_features_raises [of example_env new_conn
     "stub_DomainCapabilities\<lparr>cpu := \<lparr>modes =
        [\<lparr>mode_name = Some ''custom'', mode_supported = Some True, vendor = None,
          models = [], mode_features = []\<rparr>,
         \<lparr>mode_name = Some ''host-model'', mode_supported = Some False, vendor = None,
          models = [], mode_features = []\<rparr>]\<rparr>\<rparr>"]
  by (simp add: example_env_def host_mode_def)


section \<open>Finding the UEFI path of the arch\<close>

lemma find_path_find: "find_path pattern vs = List.find (re_match pattern) vs"
  by (induction vs) simp_all

lemma find_path_first: "first_matching pattern vs v \<Longrightarrow> find_path pattern vs = Some v"
  unfolding find_path_find first_matching_def find_Some_iff by blast

lemma find_path_none:
  "\<forall>w \<in> set vs. \<not> re_match pattern w \<Longrightarrow> find_path pattern vs = None"
  unfolding find_path_find find_None_iff by blast

lemma find_pattern_earliest:
  "\<forall>q \<in> set pre. \<forall>w \<in> set vs. \<not> re_match q w \<Longrightarrow> first_matching p vs v
     \<Longrightarrow> find_pattern (pre @ p # post) vs = Some v"
proof (induction pre)
  case Nil
  then show ?case by (simp add: find_path_first)
next
  case (Cons q pre)
  from Cons.prems(1) have "find_path q vs = None" by (simp add: find_path_none)
  moreover from Cons have "find_pattern (pre @ p # post) vs = Some v" by simp
  ultimately show ?case by simp
qed

lemma find_pattern_none:
  "\<forall>q \<in> set ps. \<forall>w \<in> set vs. \<not> re_match q w \<Longrightarrow> find_pattern ps vs = None"
  by (induction ps) (simp_all add: find_path_none)

lemma arch_can_uefi_key:
  "arch self = Some a \<Longrightarrow> map_of uefi_arch_patterns a = Some ps
     \<Longrightarrow> arch_can_uefi self \<and> patterns_get (arch self) = Some ps"
proof -
  assume a: "arch self = Some a" and m: "map_of uefi_arch_patterns a = Some ps"
  from m have "(a, ps) \<in> set uefi_arch_patterns" by (rule map_of_SomeD)
  then have "a \<in> fst ` set uefi_arch_patterns" by force
  with a m show ?thesis by (simp add: arch_can_uefi_def patterns_get_def)
qed

text \<open>
  Claim C2. For every instance: when the arch is not a key of the UEFI pattern table,
  \<open>find_uefi_path_for_arch\<close> returns none, whatever the loader values are. Otherwise,
  with the patterns of the arch in table order and the values of the OS loader block in
  document order: if a pattern matches some value and no pattern before it in the table
  matches any value, the result is the first value, in document order, that this
  pattern matches (so a value matched by an earlier pattern wins over a value that
  stands earlier in the document and is matched by a later pattern only); if no pattern
  matches any value, the result is none.
\<close>

theorem find_uefi_path_for_arch_earliest_pattern:
  "((\<forall>a. arch self = Some a \<longrightarrow> a \<notin> fst ` set uefi_arch_patterns)
       \<longrightarrow> find_uefi_path_for_arch self = Inr None)
   \<and> (\<forall>a pre p post v.
         arch self = Some a \<and> map_of uefi_arch_patterns a = Some (pre @ p # post)
         \<and> (\<forall>q \<in> set pre. \<forall>w \<in> set (map value_text (block_values (loader (os self)))).
               \<not> re_match q w)
         \<and> first_matching p (map value_text (block_values (loader (os self)))) v
       \<longrightarrow> find_uefi_path_for_arch self = Inr (Some v))
   \<and> (\<forall>a ps.
         arch self = Some a \<and> map_of uefi_arch_patterns a = Some ps
         \<and> (\<forall>q \<in> set ps. \<forall>w \<in> set (map value_text (block_values (loader (os self)))).
               \<not> re_match q w)
       \<longrightarrow> find_uefi_path_for_arch self = Inr None)"
proof (intro conjI allI impI)
  assume "\<forall>a. arch self = Some a \<longrightarrow> a \<notin> fst ` set uefi_arch_patterns"
  then have "\<not> arch_can_uefi self"
    by (cases "arch self") (simp_all add: arch_can_uefi_def)
  then show "find_uefi_path_for_arch self = Inr None"
    by (simp add: find_uefi_path_for_arch_def)
next
  fix a pre p post v
  let ?vs = "map value_text (block_values (loader (os self)))"
  assume h: "arch self = Some a \<and> map_of uefi_arch_patterns a = Some (pre @ p # post)
         \<and> (\<forall>q \<in> set pre. \<forall>w \<in> set ?vs. \<not> re_match q w)
         \<and> first_matching p ?vs v"
  then have h1: "arch self = Some a"
    and h2: "map_of uefi_arch_patterns a = Some (pre @ p # post)"
    and h3: "\<forall>q \<in> set pre. \<forall>w \<in> set ?vs. \<not> re_match q w"
    and h4: "first_matching p ?vs v"
    by blast+
  from h1 h2 have k: "arch_can_uefi self \<and> patterns_get (arch self) = Some (pre @ p # post)"
    by (rule arch_can_uefi_key)
  from h3 h4 have "find_pattern (pre @ p # post) ?vs = Some v"
    by (rule find_pattern_earliest)
  with k show "find_uefi_path_for_arch self = Inr (Some v)"
    by (simp add: find_uefi_path_for_arch_def)
next
  fix a ps
  let ?vs = "map value_text (block_values (loader (os self)))"
  assume h: "arch self = Some a \<and> map_of uefi_arch_patterns a = Some ps
         \<and> (\<forall>q \<in> set ps. \<forall>w \<in> set ?vs. \<not> re_match q w)"
  then have h1: "arch self = Some a"
    and h2: "map_of uefi_arch_patterns a = Some ps"
    and h3: "\<forall>q \<in> set ps. \<forall>w \<in> set ?vs. \<not> re_match q w"
    by blast+
  from h1 h2 have k: "arch_can_uefi self \<and> patterns_get (arch self) = Some ps"
    by (rule arch_can_uefi_key)
  from h3 have "find_pattern ps ?vs = None"
    by (rule find_pattern_none)
  with k show "find_uefi_path_for_arch self = Inr None"
    by (simp add: find_uefi_path_for_arch_def)
qed

theorem find_uefi_path_for_arch_earliest_pattern_witness:
  "find_uefi_path_for_arch (with_loader_values (Some ''x86_64'')
      [''/usr/share/ovmf/ovmf-debug.bin'', ''/usr/share/OVMF/OVMF_CODE.fd''])
     = Inr (Some ''/usr/share/OVMF/OVMF_CODE.fd'')
   \<and> find_uefi_path_for_arch (with_loader_values (Some ''s390x'')
      [''/usr/share/ovmf/ovmf-debug.bin'', ''/usr/share/OVMF/OVMF_CODE.fd''])
     = Inr None
   \<and> find_uefi_path_for_arch (with_loader_values (Some ''armv7l'')
      [''/usr/share/ovmf/ovmf-debug.bin'', ''/usr/share/OVMF/OVMF_CODE.fd''])
     = Inr None"
proof -
  let ?vs = "[''/usr/share/ovmf/ovmf-debug.bin'', ''/usr/share/OVMF/OVMF_CODE.fd'']"
  let ?x = "with_loader_values (Some ''x86_64'') ?vs"
  let ?s = "with_loader_values (Some ''s390x'') ?vs"
  let ?r = "with_loader_values (Some ''armv7l'') ?vs"
  have vs: "\<And>a. map value_text (block_values (loader (os (with_loader_values a ?vs)))) = ?vs"
    and ar: "\<And>a. arch (with_loader_values a ?vs) = a"
    by (simp_all add: with_loader_values_def stub_DomainCapabilities_def)
  have t: "map_of uefi_arch_patterns ''x86_64'' =
      Some ([] @ (DotStar # lit ''OVMF_CODE.fd'') #
        [DotStar # lit ''ovmf-x64/OVMF'' @ DotStar # lit ''.fd'',
         DotStar # lit ''ovmf-x86_64-'' @ [DotStar],
         DotStar # lit ''ovmf'' @ [DotStar],
         DotStar # lit ''OVMF'' @ [DotStar]])"
    by (simp add: uefi_arch_patterns_def)
  have f: "first_matching (DotStar # lit ''OVMF_CODE.fd'') ?vs ''/usr/share/OVMF/OVMF_CODE.fd''"
    unfolding first_matching_def
    by (rule exI [of _ 1]) (simp add: lit_def)
  have 1: "find_uefi_path_for_arch ?x = Inr (Some ''/usr/share/OVMF/OVMF_CODE.fd'')"
    using find_uefi_path_for_arch_earliest_pattern [of ?x] t f
    unfolding vs ar by (metis empty_iff list.set(1))
  have k: "\<forall>a. Some ''s390x'' = Some a \<longrightarrow> a \<notin> fst ` set uefi_arch_patterns"
    by (simp add: uefi_arch_patterns_def)
  have 2: "find_uefi_path_for_arch ?s = Inr None"
    using find_uefi_path_for_arch_earliest_pattern [of ?s] k
    unfolding vs ar by blast
  have t3: "map_of uefi_arch_patterns ''armv7l'' = Some [DotStar # lit ''arm/QEMU_EFI'' @ [DotStar]]"
    by (simp add: uefi_arch_patterns_def)
  have n3: "\<forall>q \<in> set [DotStar # lit ''arm/QEMU_EFI'' @ [DotStar]]. \<forall>w \<in> set ?vs. \<not> re_match q w"
    by (simp add: lit_def)
  have 3: "find_uefi_path_for_arch ?r = Inr None"
    using find_uefi_path_for_arch_earliest_pattern [of ?r] t3 n3
    unfolding vs ar by blast
  from 1 2 3 show ?thesis by simp
qed


section \<open>Labels of firmware paths\<close>

lemma label_patterns_match:
  "any_match ps s \<Longrightarrow> label_patterns a ps s = Some (''UEFI '' @ a @ '': '' @ s)"
  by (induction ps) (auto simp: any_match_def)

lemma label_patterns_none: "\<not> any_match ps s \<Longrightarrow> label_patterns a ps s = None"
  by (induction ps) (auto simp: any_match_def)

lemma label_items_first:
  "\<forall>(b, qs) \<in> set pre. \<not> any_match qs s \<Longrightarrow> any_match ps s
     \<Longrightarrow> label_items (pre @ (a, ps) # post) s = Some (''UEFI '' @ a @ '': '' @ s)"
proof (induction pre)
  case Nil
  then show ?case by (simp add: label_patterns_match)
next
  case (Cons x pre)
  obtain b qs where x: "x = (b, qs)" by (cases x)
  with Cons.prems(1) have "\<not> any_match qs s" by simp
  then have "label_patterns b qs s = None" by (rule label_patterns_none)
  moreover from Cons have
    "label_items (pre @ (a, ps) # post) s = Some (''UEFI '' @ a @ '': '' @ s)" by simp
  ultimately show ?case using x by simp
qed

lemma label_items_none:
  "\<forall>(b, qs) \<in> set t. \<not> any_match qs s \<Longrightarrow> label_items t s = None"
proof (induction t)
  case Nil
  show ?case by simp
next
  case (Cons x t)
  obtain b qs where x: "x = (b, qs)" by (cases x)
  with Cons.prems have "\<not> any_match qs s" by simp
  then have "label_patterns b qs s = None" by (rule label_patterns_none)
  moreover from Cons have "label_items t s = None" by simp
  ultimately show ?case using x by simp
qed

lemma label_nonempty:
  "s \<noteq> [] \<Longrightarrow> label_for_firmware_path self (Some s) =
     (case label_items uefi_arch_patterns s of Some l \<Rightarrow> l | None \<Rightarrow> ''Custom: '' @ s)"
  by (simp add: label_for_firmware_path_def)

text \<open>
  Claim C6, as stated, fails at the empty path: the path is present, no pattern of the
  table matches it, and the label is "BIOS", not "Custom: ".
\<close>

theorem label_for_firmware_path_empty_counterexample:
  "label_for_firmware_path (with_loader_values (Some ''x86_64'') []) (Some [])
     = ''BIOS''
   \<and> label_for_firmware_path (with_loader_values (Some ''x86_64'') []) (Some [])
     \<noteq> ''Custom: '' @ []
   \<and> label_items uefi_arch_patterns [] = None"
  by (simp add: label_for_firmware_path_def with_loader_values_def
      stub_DomainCapabilities_def uefi_arch_patterns_def lit_def)

text \<open>
  Claim C6, amended. \<open>label_for_firmware_path\<close> returns "BIOS" when the path is
  absent or the empty string and the arch is i686 or x86_64, and "None" when the path
  is absent or empty and the arch is anything else. When the path is a non-empty string
  it scans the pattern lists of all architectures in table order, whatever the arch of
  the instance is: for the first architecture one of whose patterns matches the path it
  returns the label "UEFI arch: path" with that architecture, and when no pattern of
  the whole table matches it returns "Custom: path".
\<close>

theorem label_for_firmware_path_cases:
  "((p = None \<or> p = Some []) \<longrightarrow>
      label_for_firmware_path self p =
        (if arch self = Some ''i686'' \<or> arch self = Some ''x86_64''
         then ''BIOS'' else ''None''))
   \<and> (\<forall>s pre a ps post.
         p = Some s \<and> s \<noteq> [] \<and> uefi_arch_patterns = pre @ (a, ps) # post
         \<and> (\<forall>(b, qs) \<in> set pre. \<not> any_match qs s) \<and> any_match ps s
       \<longrightarrow> label_for_firmware_path self p = ''UEFI '' @ a @ '': '' @ s)
   \<and> (\<forall>s. p = Some s \<and> s \<noteq> []
            \<and> (\<forall>(b, qs) \<in> set uefi_arch_patterns. \<not> any_match qs s)
       \<longrightarrow> label_for_firmware_path self p = ''Custom: '' @ s)
   \<and> (\<forall>s other. p = Some s \<and> s \<noteq> []
       \<longrightarrow> label_for_firmware_path other p = label_for_firmware_path self p)"
proof (intro conjI allI impI)
  assume "p = None \<or> p = Some []"
  then show "label_for_firmware_path self p =
        (if arch self = Some ''i686'' \<or> arch self = Some ''x86_64''
         then ''BIOS'' else ''None'')"
    by (auto simp: label_for_firmware_path_def)
next
  fix s pre a ps post
  assume h: "p = Some s \<and> s \<noteq> [] \<and> uefi_arch_patterns = pre @ (a, ps) # post
         \<and> (\<forall>(b, qs) \<in> set pre. \<not> any_match qs s) \<and> any_match ps s"
  then have p: "p = Some s" and s: "s \<noteq> []"
    and t: "uefi_arch_patterns = pre @ (a, ps) # post"
    and n: "\<forall>(b, qs) \<in> set pre. \<not> any_match qs s" and m: "any_match ps s"
    by blast+
  from n m have "label_items (pre @ (a, ps) # post) s = Some (''UEFI '' @ a @ '': '' @ s)"
    by (rule label_items_first)
  with t have "label_items uefi_arch_patterns s = Some (''UEFI '' @ a @ '': '' @ s)"
    by simp
  with p show "label_for_firmware_path self p = ''UEFI '' @ a @ '': '' @ s"
    by (simp add: label_nonempty [OF s])
next
  fix s
  assume h: "p = Some s \<and> s \<noteq> []
            \<and> (\<forall>(b, qs) \<in> set uefi_arch_patterns. \<not> any_match qs s)"
  then have p: "p = Some s" and s: "s \<noteq> []"
    and n: "\<forall>(b, qs) \<in> set uefi_arch_patterns. \<not> any_match qs s"
    by blast+
  from n have "label_items uefi_arch_patterns s = None" by (rule label_items_none)
  with p show "label_for_firmware_path self p = ''Custom: '' @ s"
    by (simp add: label_nonempty [OF s])
next
  fix s other
  assume "p = Some s \<and> s \<noteq> []"
  then show "label_for_firmware_path other p = label_for_firmware_path self p"
    by (simp add: label_nonempty)
qed

theorem label_for_firmware_path_cases_witness:
  "label_for_firmware_path (with_loader_values (Some ''x86_64'') []) None = ''BIOS''
   \<and> label_for_firmware_path (with_loader_values (Some ''aarch64'') []) None = ''None''
   \<and> label_for_firmware_path (with_loader_values (Some ''x86_64'') [])
       (Some ''/usr/share/AAVMF/AAVMF_CODE.fd'')
     = ''UEFI aarch64: /usr/share/AAVMF/AAVMF_CODE.fd''
   \<and> label_for_firmware_path (with_loader_values (Some ''x86_64'') [])
       (Some ''/weird/path'') = ''Custom: /weird/path''"
proof -
  let ?x = "with_loader_values (Some ''x86_64'') []"
  let ?a = "with_loader_values (Some ''aarch64'') []"
  have ar: "arch ?x = Some ''x86_64''" "arch ?a = Some ''aarch64''"
    by (simp_all add: with_loader_values_def)
  have 1: "label_for_firmware_path ?x None = ''BIOS''"
    using label_for_firmware_path_cases [of None ?x] by (simp add: ar)
  have 2: "label_for_firmware_path ?a None = ''None''"
    using label_for_firmware_path_cases [of None ?a] by (simp add: ar)
  let ?s = "''/usr/share/AAVMF/AAVMF_CODE.fd''"
  let ?pre = "[(''i686'', [DotStar # lit ''ovmf-ia32'' @ [DotStar]]),
      (''x86_64'',
        [DotStar # lit ''OVMF_CODE.fd'',
         DotStar # lit ''ovmf-x64/OVMF'' @ DotStar # lit ''.fd'',
         DotStar # lit ''ovmf-x86_64-'' @ [DotStar],
         DotStar # lit ''ovmf'' @ [DotStar],
         DotStar # lit ''OVMF'' @ [DotStar]])]"
  let ?ps = "[DotStar # lit ''AAVMF_CODE.fd'',
         DotStar # lit ''aarch64/QEMU_EFI'' @ [DotStar],
         DotStar # lit ''aarch64'' @ [DotStar]]"
  let ?post = "[(''armv7l'', [DotStar # lit ''arm/QEMU_EFI'' @ [DotStar]])]"
  have t: "uefi_arch_patterns = ?pre @ (''aarch64'', ?ps) # ?post"
    by (simp add: uefi_arch_patterns_def)
  have n: "\<forall>(b, qs) \<in> set ?pre. \<not> any_match qs ?s"
    by (simp add: any_match_def lit_def)
  have m: "any_match ?ps ?s"
    by (simp add: any_match_def lit_def)
  have ne: "?s \<noteq> []" by simp
  note first = label_for_firmware_path_cases [of "Some ?s" ?x, THEN conjunct2,
      THEN conjunct1, rule_format, of ?s ?pre "''aarch64''" ?ps ?post]
  have "label_for_firmware_path ?x (Some ?s) = ''UEFI '' @ ''aarch64'' @ '': '' @ ?s"
    by (rule first) (intro conjI refl ne t n m)
  then have 3: "label_for_firmware_path ?x (Some ?s)
      = ''UEFI aarch64: /usr/share/AAVMF/AAVMF_CODE.fd''"
    by simp
  have w: "\<forall>(b, qs) \<in> set uefi_arch_patterns. \<not> any_match qs ''/weird/path''"
    by (simp add: uefi_arch_patterns_def any_match_def lit_def)
  have nw: "''/weird/path'' \<noteq> []" by simp
  note custom = label_for_firmware_path_cases [of "Some ''/weird/path''" ?x, THEN conjunct2,
      THEN conjunct2, THEN conjunct1, rule_format, of "''/weird/path''"]
  have "label_for_firmware_path ?x (Some ''/weird/path'') = ''Custom: '' @ ''/weird/path''"
    by (rule custom) (intro conjI refl nw w)
  then have 4: "label_for_firmware_path ?x (Some ''/weird/path'') = ''Custom: /weird/path''"
    by simp
  from 1 2 3 4 show ?thesis by simp
qed

end
